theory Spec2Isabelle
  imports Main "HOL-Library.AList" "HOL-Library.Char_ord" "HOL-Library.List_Lexorder"
begin

section \<open>Boolean and proximity retrieval over an inverted and a positional index\<close>

text \<open>
  A shallow embedding of \<^verbatim>\<open>src/main.py\<close>: the normaliser \<^verbatim>\<open>preprocess\<close>, the
  index builder \<^verbatim>\<open>build_indexes\<close>, the four codec functions and the two query
  evaluators. A Python \<^verbatim>\<open>str\<close> is a \<^typ>\<open>string\<close>; a \<^typ>\<open>char\<close> stands for
  the code point of the same number, so the embedding covers texts whose code points lie
  below 256. A Python \<^verbatim>\<open>int\<close> is an \<^typ>\<open>int\<close>, a \<^verbatim>\<open>dict\<close> is an association
  list in insertion order with one entry per key, a \<^verbatim>\<open>set\<close> is a \<^typ>\<open>'a set\<close>.
  An exception is a value of \<open>py_error\<close>, returned as \<open>Inl\<close>.

  Two things the program takes from the NLTK library are not in the repository and are
  parameters of the model: the Porter stemmer (\<open>stem\<close>, for \<^verbatim>\<open>PorterStemmer().stem\<close>)
  and the tokenizer of proximity queries (\<open>word_tokenize\<close>). The stopword set, read from
  \<^verbatim>\<open>Stopword-List.txt\<close> on every call of \<^verbatim>\<open>preprocess\<close>, is the parameter
  \<open>stop_words\<close>. The debugging \<^verbatim>\<open>print\<close> of \<^verbatim>\<open>boolean_query\<close> writes to the
  standard output only and is left out.
\<close>

subsection \<open>Characters and the string methods the program calls\<close>

datatype py_error = IndexError | ValueError | TypeError

definition code_point :: "char \<Rightarrow> nat" where
  "code_point c = of_char c"

text \<open>\<^verbatim>\<open>str.isspace\<close>, which is also what \<^verbatim>\<open>\s\<close>, \<^verbatim>\<open>str.split()\<close> and
  \<^verbatim>\<open>str.strip()\<close> test, on the code points below 256.\<close>

definition isspace :: "char \<Rightarrow> bool" where
  "isspace c = (let n = code_point c in
     (9 \<le> n \<and> n \<le> 13) \<or> (28 \<le> n \<and> n \<le> 32) \<or> n = 133 \<or> n = 160)"

definition is_upper :: "char \<Rightarrow> bool" where
  "is_upper c = (let n = code_point c in 65 \<le> n \<and> n \<le> 90)"

definition is_lower :: "char \<Rightarrow> bool" where
  "is_lower c = (let n = code_point c in 97 \<le> n \<and> n \<le> 122)"

definition is_digit :: "char \<Rightarrow> bool" where
  "is_digit c = (let n = code_point c in 48 \<le> n \<and> n \<le> 57)"

text \<open>The character class \<^verbatim>\<open>[a-zA-Z0-9]\<close>.\<close>

definition is_alnum :: "char \<Rightarrow> bool" where
  "is_alnum c = (is_lower c \<or> is_upper c \<or> is_digit c)"

text \<open>\<^verbatim>\<open>str.isalpha\<close> on one character: the ASCII letters and the letters of the
  Latin-1 block.\<close>

definition isalpha :: "char \<Rightarrow> bool" where
  "isalpha c = (let n = code_point c in
     is_lower c \<or> is_upper c \<or> n = 170 \<or> n = 181 \<or> n = 186 \<or>
     (192 \<le> n \<and> n \<le> 214) \<or> (216 \<le> n \<and> n \<le> 246) \<or> (248 \<le> n \<and> n \<le> 255))"

text \<open>\<^verbatim>\<open>str.lower\<close> on one character.\<close>

definition lower_char :: "char \<Rightarrow> char" where
  "lower_char c = (let n = code_point c in
     if is_upper c \<or> (192 \<le> n \<and> n \<le> 222 \<and> n \<noteq> 215) then char_of (n + 32) else c)"

definition lower :: "string \<Rightarrow> string" where
  "lower s = map lower_char s"

text \<open>\<^verbatim>\<open>s.split()\<close>: the maximal runs of characters that are not whitespace. The
  first argument is the run read so far.\<close>

fun split_ws :: "string \<Rightarrow> string \<Rightarrow> string list" where
  "split_ws cur [] = (if cur = [] then [] else [cur])"
| "split_ws cur (c # cs) =
     (if isspace c then (if cur = [] then split_ws [] cs else cur # split_ws [] cs)
      else split_ws (cur @ [c]) cs)"

definition py_split :: "string \<Rightarrow> string list" where
  "py_split s = split_ws [] s"

text \<open>\<^verbatim>\<open>s.split(sep)\<close> for a separator of one character: always at least one part.\<close>

fun split_sep :: "char \<Rightarrow> string \<Rightarrow> string \<Rightarrow> string list" where
  "split_sep sep cur [] = [cur]"
| "split_sep sep cur (c # cs) =
     (if c = sep then cur # split_sep sep [] cs else split_sep sep (cur @ [c]) cs)"

definition split_on :: "char \<Rightarrow> string \<Rightarrow> string list" where
  "split_on sep s = split_sep sep [] s"

definition strip :: "string \<Rightarrow> string" where
  "strip s = rev (dropWhile isspace (rev (dropWhile isspace s)))"

fun join :: "string \<Rightarrow> string list \<Rightarrow> string" where
  "join sep [] = []"
| "join sep [x] = x"
| "join sep (x # y # ys) = x @ sep @ join sep (y # ys)"

subsection \<open>Integers as text\<close>

definition digit_char :: "nat \<Rightarrow> char" where
  "digit_char d = char_of (48 + d)"

fun str_nat :: "nat \<Rightarrow> string" where
  "str_nat n = (if n < 10 then [digit_char n] else str_nat (n div 10) @ [digit_char (n mod 10)])"

text \<open>\<^verbatim>\<open>str(i)\<close> for an integer.\<close>

definition str_int :: "int \<Rightarrow> string" where
  "str_int i = (if i < 0 then CHR ''-'' # str_nat (nat (- i)) else str_nat (nat i))"

text \<open>The decimal digits of \<^verbatim>\<open>int(s)\<close>: digits, with single underscores allowed
  between two digits. The accumulator is the value read so far.\<close>

fun read_digits :: "nat \<Rightarrow> string \<Rightarrow> nat option" where
  "read_digits acc [] = Some acc"
| "read_digits acc [c] = (if is_digit c then Some (acc * 10 + (code_point c - 48)) else None)"
| "read_digits acc (c # d # cs) =
     (if is_digit c then
        (if d = CHR ''_'' then
           (case cs of [] \<Rightarrow> None
            | e # es \<Rightarrow> if is_digit e then read_digits (acc * 10 + (code_point c - 48)) cs else None)
         else read_digits (acc * 10 + (code_point c - 48)) (d # cs))
      else None)"

definition read_nat :: "string \<Rightarrow> nat option" where
  "read_nat s = (if s = [] then None else read_digits 0 s)"

text \<open>The whitespace that \<^verbatim>\<open>int(s)\<close> passes over at both ends of \<open>s\<close>: the ASCII
  blanks 9 to 13 and 32, and the two spaces of the Latin-1 block, which \<^verbatim>\<open>int\<close> turns
  into blanks first. The separators 28 to 31, whitespace for \<^verbatim>\<open>str.split\<close>, are not
  passed over.\<close>

definition int_space :: "char \<Rightarrow> bool" where
  "int_space c = (let n = code_point c in (9 \<le> n \<and> n \<le> 13) \<or> n = 32 \<or> n = 133 \<or> n = 160)"

text \<open>\<^verbatim>\<open>int(s)\<close>: surrounding whitespace is dropped, a sign may lead; \<open>None\<close> is
  the \<^verbatim>\<open>ValueError\<close>.\<close>

definition py_int :: "string \<Rightarrow> int option" where
  "py_int s =
     (case rev (dropWhile int_space (rev (dropWhile int_space s))) of
        [] \<Rightarrow> None
      | c # cs \<Rightarrow>
          if c = CHR ''-'' then map_option (\<lambda>n. - int n) (read_nat cs)
          else if c = CHR ''+'' then map_option int (read_nat cs)
          else map_option int (read_nat (c # cs)))"

subsection \<open>The three patterns of the normaliser\<close>

text \<open>
  \<^verbatim>\<open>email_regex = [a-zA-Z0-9_.+-]+@[a-zA-Z0-9-]+\.[a-zA-Z0-9-.]+\<close>. Each character
  that must follow a repetition lies outside the class repeated, so a match can only take
  the longest run of each class: backtracking to a shorter run never succeeds. The
  result is the length of the match at the start of the string (\<^verbatim>\<open>re.match\<close>).
\<close>

definition local_char :: "char \<Rightarrow> bool" where
  "local_char c = (is_alnum c \<or> c = CHR ''_'' \<or> c = CHR ''.'' \<or> c = CHR ''+'' \<or> c = CHR ''-'')"

definition domain_char :: "char \<Rightarrow> bool" where
  "domain_char c = (is_alnum c \<or> c = CHR ''-'')"

definition suffix_char :: "char \<Rightarrow> bool" where
  "suffix_char c = (is_alnum c \<or> c = CHR ''-'' \<or> c = CHR ''.'')"

definition match_email :: "string \<Rightarrow> nat option" where
  "match_email s =
     (let l = takeWhile local_char s in
      if l = [] then None
      else
        (case dropWhile local_char s of
           [] \<Rightarrow> None
         | a # r \<Rightarrow>
             (if a \<noteq> CHR ''@'' then None
              else
                (let d = takeWhile domain_char r in
                 if d = [] then None
                 else
                   (case dropWhile domain_char r of
                      [] \<Rightarrow> None
                    | p # t \<Rightarrow>
                        (if p \<noteq> CHR ''.'' then None
                         else
                           (let u = takeWhile suffix_char t in
                            if u = [] then None
                            else Some (length l + 1 + length d + 1 + length u))))))))"

text \<open>\<^verbatim>\<open>url_regex = https?://[^\s]+\<close>.\<close>

definition match_rest :: "nat \<Rightarrow> string \<Rightarrow> nat option" where
  "match_rest n s =
     (if take 3 s = ''://'' then
        (let u = takeWhile (\<lambda>c. \<not> isspace c) (drop 3 s) in
         if u = [] then None else Some (n + 3 + length u))
      else None)"

definition match_url :: "string \<Rightarrow> nat option" where
  "match_url s =
     (if take 4 s = ''http'' then
        (if take 1 (drop 4 s) = ''s'' then match_rest 5 (drop 5 s) else match_rest 4 (drop 4 s))
      else None)"

text \<open>The pattern of \<^verbatim>\<open>re.findall\<close>, \<^verbatim>\<open>(?:email|url|\S+)\<close>: the first alternative
  that matches at the position wins.\<close>

definition match_word :: "string \<Rightarrow> nat option" where
  "match_word s =
     (case match_email s of
        Some n \<Rightarrow> Some n
      | None \<Rightarrow>
          (case match_url s of
             Some n \<Rightarrow> Some n
           | None \<Rightarrow>
               (let w = takeWhile (\<lambda>c. \<not> isspace c) s in
                if w = [] then None else Some (length w))))"

text \<open>\<^verbatim>\<open>re.findall\<close> scans from left to right; after a match it goes on behind it.
  The first argument counts the characters of the last match still to be passed over.\<close>

fun findall_words :: "nat \<Rightarrow> string \<Rightarrow> string list" where
  "findall_words k [] = []"
| "findall_words k (c # cs) =
     (if 0 < k then findall_words (k - 1) cs
      else case match_word (c # cs) of
        None \<Rightarrow> findall_words 0 cs
      | Some n \<Rightarrow> take n (c # cs) # findall_words (n - 1) cs)"

subsection \<open>The normaliser\<close>

definition is_preserved :: "string \<Rightarrow> bool" where
  "is_preserved token = (match_email token \<noteq> None \<or> match_url token \<noteq> None)"

definition clean_token :: "string \<Rightarrow> string" where
  "clean_token token = (if is_preserved token then token else filter is_alnum token)"

text \<open>One round of the second loop of \<^verbatim>\<open>preprocess\<close>: what a token adds to
  \<^verbatim>\<open>processed_tokens\<close>.\<close>

definition process_token :: "(string \<Rightarrow> string) \<Rightarrow> string set \<Rightarrow> string \<Rightarrow> string list" where
  "process_token stem stop_words token =
     (let token1 = (if \<not> is_preserved token
                    then filter (\<lambda>c. \<not> is_digit c) (lower token) else token) in
      if list_ex isalpha token1 then
        (if 2 < length token1 then
           (let stemmed_token = stem token1 in
            if stemmed_token \<notin> stop_words then [stemmed_token] else [])
         else [])
      else [])"

definition preprocess :: "(string \<Rightarrow> string) \<Rightarrow> string set \<Rightarrow> string \<Rightarrow> string list" where
  "preprocess stem stop_words text =
     (let tokens = map clean_token (findall_words 0 text) in
      concat (map (process_token stem stop_words) tokens))"

subsection \<open>Dictionaries and the two indexes\<close>

text \<open>\<^verbatim>\<open>d.get(k, default)\<close>; storing under a key is \<^const>\<open>AList.update\<close>, which
  replaces the value of a key in place and puts a new key last, as a \<^verbatim>\<open>dict\<close> does.\<close>

definition dict_get :: "('k \<times> 'v) list \<Rightarrow> 'k \<Rightarrow> 'v \<Rightarrow> 'v" where
  "dict_get d k dflt = (case map_of d k of None \<Rightarrow> dflt | Some v \<Rightarrow> v)"

text \<open>The document ids of a built index are the integers of the collection; those of a
  decoded positional index are the strings read from the file, which
  \<^verbatim>\<open>load_positional_index\<close> does not convert.\<close>

datatype doc_key = IntKey (int_of: int) | StrKey (str_of: string)

fun is_int_key :: "doc_key \<Rightarrow> bool" where
  "is_int_key (IntKey i) = True"
| "is_int_key (StrKey s) = False"

fun str_key :: "doc_key \<Rightarrow> string" where
  "str_key (IntKey i) = str_int i"
| "str_key (StrKey s) = s"

type_synonym inverted_index = "(string \<times> int list) list"

type_synonym postings = "(doc_key \<times> int list) list"

type_synonym positional_index = "(string \<times> postings) list"

text \<open>The two index files, each the list of its lines without the line ends; \<open>None\<close>
  when the file does not exist. A line written is a line read: a term holds no line break,
  since a token is free of whitespace.\<close>

record index_files =
  inverted_file :: "string list option"
  positional_file :: "string list option"

subsection \<open>The index codec\<close>

definition save_inverted_index :: "inverted_index \<Rightarrow> string list" where
  "save_inverted_index index =
     map (\<lambda>(term, doc_ids). term @ '':'' @ join '' '' (map str_int doc_ids)) index"

definition save_positional_index :: "positional_index \<Rightarrow> string list" where
  "save_positional_index index =
     map (\<lambda>(term, postings). term @ '':'' @
            concat (map (\<lambda>(doc_id, positions).
              '' '' @ str_key doc_id @ '' ['' @ join '','' (map str_int positions) @ '']'') postings))
         index"

text \<open>A list comprehension over \<^verbatim>\<open>int\<close>: the first string that is not a number
  raises.\<close>

fun read_ints :: "string list \<Rightarrow> int list option" where
  "read_ints [] = Some []"
| "read_ints (s # ss) =
     (case py_int s of
        None \<Rightarrow> None
      | Some i \<Rightarrow> (case read_ints ss of None \<Rightarrow> None | Some is \<Rightarrow> Some (i # is)))"

fun load_inverted_lines :: "string list \<Rightarrow> inverted_index \<Rightarrow> py_error + inverted_index" where
  "load_inverted_lines [] index = Inr index"
| "load_inverted_lines (line # rest) index =
     (case split_on CHR '':'' (strip line) of
        [term, doc_ids] \<Rightarrow>
          (case read_ints (py_split doc_ids) of
             None \<Rightarrow> Inl ValueError
           | Some ids \<Rightarrow> load_inverted_lines rest (AList.update term ids index))
      | _ \<Rightarrow> load_inverted_lines rest index)"

definition load_inverted_index :: "string list \<Rightarrow> py_error + inverted_index" where
  "load_inverted_index file = load_inverted_lines file []"

text \<open>The loop \<^verbatim>\<open>for i in range(0, len(postings_list), 2)\<close>: two items a round, a
  last single item is passed over. \<^verbatim>\<open>item[1:-1]\<close> is \<open>butlast (tl item)\<close>.\<close>

fun load_postings :: "string list \<Rightarrow> postings \<Rightarrow> py_error + postings" where
  "load_postings (doc_id # item # rest) postings =
     (let positions_str = butlast (tl item) in
      if positions_str \<noteq> [] then
        (case read_ints (split_on CHR '','' positions_str) of
           None \<Rightarrow> Inl ValueError
         | Some positions \<Rightarrow> load_postings rest (AList.update (StrKey doc_id) positions postings))
      else load_postings rest postings)"
| "load_postings [doc_id] postings = Inr postings"
| "load_postings [] postings = Inr postings"

fun load_positional_lines :: "string list \<Rightarrow> positional_index \<Rightarrow> py_error + positional_index" where
  "load_positional_lines [] positional_index = Inr positional_index"
| "load_positional_lines (line # rest) positional_index =
     (case split_on CHR '':'' (strip line) of
        term # part # parts \<Rightarrow>
          (let postings_str = join '':'' (part # parts) in
           case load_postings (py_split (strip postings_str)) [] of
             Inl e \<Rightarrow> Inl e
           | Inr postings \<Rightarrow>
               load_positional_lines rest (AList.update term postings positional_index))
      | _ \<Rightarrow> load_positional_lines rest positional_index)"

definition load_positional_index :: "string list \<Rightarrow> py_error + positional_index" where
  "load_positional_index file = load_positional_lines file []"

subsection \<open>The index builder\<close>

text \<open>The first inner loop of \<^verbatim>\<open>build_indexes\<close>: the positions of the slots of one
  document, by the first token each slot normalises to.\<close>

fun record_positions ::
  "(string \<Rightarrow> string) \<Rightarrow> string set \<Rightarrow> (nat \<times> string) list \<Rightarrow>
   (string \<times> int list) list \<Rightarrow> (string \<times> int list) list" where
  "record_positions stem stop_words [] positions = positions"
| "record_positions stem stop_words ((position, token) # rest) positions =
     (case preprocess stem stop_words token of
        [] \<Rightarrow> record_positions stem stop_words rest positions
      | processed_token # others \<Rightarrow>
          record_positions stem stop_words rest
            (AList.update processed_token
               (dict_get positions processed_token [] @ [int position]) positions))"

text \<open>The second inner loop: the entries of \<^verbatim>\<open>positions\<close> go into the two indexes
  under construction.\<close>

fun index_document ::
  "int \<Rightarrow> (string \<times> int list) list \<Rightarrow>
   (string \<times> int set) list \<times> (string \<times> (int \<times> int list) list) list \<Rightarrow>
   (string \<times> int set) list \<times> (string \<times> (int \<times> int list) list) list" where
  "index_document doc_id [] (inverted, positional) = (inverted, positional)"
| "index_document doc_id ((token, token_positions) # rest) (inverted, positional) =
     (let postings = dict_get positional token [];
          positional1 = AList.update token
            (AList.update doc_id (dict_get postings doc_id [] @ token_positions) postings)
            positional;
          inverted1 = AList.update token (insert doc_id (dict_get inverted token {})) inverted
      in index_document doc_id rest (inverted1, positional1))"

fun index_documents ::
  "(string \<Rightarrow> string) \<Rightarrow> string set \<Rightarrow> (int \<times> string) list \<Rightarrow>
   (string \<times> int set) list \<times> (string \<times> (int \<times> int list) list) list \<Rightarrow>
   (string \<times> int set) list \<times> (string \<times> (int \<times> int list) list) list" where
  "index_documents stem stop_words [] indexes = indexes"
| "index_documents stem stop_words ((doc_id, document) # rest) indexes =
     index_documents stem stop_words rest
       (index_document doc_id
          (record_positions stem stop_words (enumerate 0 (py_split document)) []) indexes)"

definition sort_inverted :: "(string \<times> int set) list \<Rightarrow> inverted_index" where
  "sort_inverted inverted =
     map (\<lambda>k. (k, sorted_list_of_set (dict_get inverted k {}))) (sort (map fst inverted))"

definition sort_postings :: "(int \<times> int list) list \<Rightarrow> (int \<times> int list) list" where
  "sort_postings items = map (\<lambda>(doc_id, positions). (doc_id, sort positions)) (sort_key fst items)"

definition sort_positional ::
  "(string \<times> (int \<times> int list) list) list \<Rightarrow> (string \<times> (int \<times> int list) list) list" where
  "sort_positional positional =
     (let positional1 = map (\<lambda>(term, items). (term, sort_postings items)) positional
      in map (\<lambda>term. (term, dict_get positional1 term [])) (sort (map fst positional1)))"

definition int_keys :: "(string \<times> (int \<times> int list) list) list \<Rightarrow> positional_index" where
  "int_keys positional =
     map (\<lambda>(term, items). (term, map (\<lambda>(doc_id, positions). (IntKey doc_id, positions)) items))
       positional"

text \<open>Lines 90 to 130: the two indexes built from the collection. The collection is the
  list of the items of the \<^verbatim>\<open>documents\<close> dictionary.\<close>

definition fresh_indexes ::
  "(string \<Rightarrow> string) \<Rightarrow> string set \<Rightarrow> (int \<times> string) list \<Rightarrow> inverted_index \<times> positional_index" where
  "fresh_indexes stem stop_words documents =
     (let (inverted, positional) = index_documents stem stop_words documents ([], [])
      in (sort_inverted inverted, int_keys (sort_positional positional)))"

text \<open>\<^verbatim>\<open>build_indexes\<close>: when both files exist their decoded contents are returned
  and nothing is built; otherwise the indexes are built and written.\<close>

definition build_indexes ::
  "(string \<Rightarrow> string) \<Rightarrow> string set \<Rightarrow> index_files \<Rightarrow> (int \<times> string) list \<Rightarrow>
   py_error + (inverted_index \<times> positional_index \<times> index_files)" where
  "build_indexes stem stop_words files documents =
     (case (inverted_file files, positional_file files) of
        (Some inverted_lines, Some positional_lines) \<Rightarrow>
          (case load_inverted_index inverted_lines of
             Inl e \<Rightarrow> Inl e
           | Inr inverted_index \<Rightarrow>
               (case load_positional_index positional_lines of
                  Inl e \<Rightarrow> Inl e
                | Inr positional_index \<Rightarrow> Inr (inverted_index, positional_index, files)))
      | _ \<Rightarrow>
          (let (inverted_index, positional_index) = fresh_indexes stem stop_words documents
           in Inr (inverted_index, positional_index,
                   \<lparr>inverted_file = Some (save_inverted_index inverted_index),
                    positional_file = Some (save_positional_index positional_index)\<rparr>)))"

subsection \<open>The boolean evaluator\<close>

datatype bool_op = AND | OR

record query_state =
  result_set :: "int set"
  last_operation :: "bool_op option"
  not_flag :: bool

text \<open>One round of the loop over the words of the query. \<^verbatim>\<open>preprocess(term)[0]\<close>
  raises \<^verbatim>\<open>IndexError\<close> when the list is empty.\<close>

definition query_step ::
  "(string \<Rightarrow> string) \<Rightarrow> string set \<Rightarrow> inverted_index \<Rightarrow> int set \<Rightarrow>
   query_state \<Rightarrow> string \<Rightarrow> py_error + query_state" where
  "query_step stem stop_words inverted_index all_documents st term =
     (if lower term = ''and'' then Inr (st\<lparr>last_operation := Some AND, not_flag := False\<rparr>)
      else if lower term = ''or'' then Inr (st\<lparr>last_operation := Some OR, not_flag := False\<rparr>)
      else if lower term = ''not'' then Inr (st\<lparr>not_flag := \<not> not_flag st\<rparr>)
      else
        (case preprocess stem stop_words term of
           [] \<Rightarrow> Inl IndexError
         | processed_term # others \<Rightarrow>
             (let found = set (dict_get inverted_index processed_term []);
                  term_results = (if not_flag st then all_documents - found else found)
              in Inr (st\<lparr>result_set :=
                   (case last_operation st of
                      Some AND \<Rightarrow> result_set st \<inter> term_results
                    | Some OR \<Rightarrow> result_set st \<union> term_results
                    | None \<Rightarrow> term_results)\<rparr>))))"

fun query_loop ::
  "(string \<Rightarrow> string) \<Rightarrow> string set \<Rightarrow> inverted_index \<Rightarrow> int set \<Rightarrow>
   query_state \<Rightarrow> string list \<Rightarrow> py_error + query_state" where
  "query_loop stem stop_words inverted_index all_documents st [] = Inr st"
| "query_loop stem stop_words inverted_index all_documents st (term # rest) =
     (case query_step stem stop_words inverted_index all_documents st term of
        Inl e \<Rightarrow> Inl e
      | Inr st1 \<Rightarrow> query_loop stem stop_words inverted_index all_documents st1 rest)"

definition boolean_query ::
  "(string \<Rightarrow> string) \<Rightarrow> string set \<Rightarrow> string \<Rightarrow> inverted_index \<Rightarrow> int set \<Rightarrow>
   py_error + int list" where
  "boolean_query stem stop_words query inverted_index all_documents =
     (case query_loop stem stop_words inverted_index all_documents
             \<lparr>result_set = {}, last_operation = None, not_flag = False\<rparr> (py_split query) of
        Inl e \<Rightarrow> Inl e
      | Inr st \<Rightarrow> Inr (sorted_list_of_set (result_set st)))"

subsection \<open>The proximity evaluator\<close>

text \<open>The innermost loop, over the positions of a later term: the first position at the
  distance adds the document and ends the loop.\<close>

fun check_next_positions :: "int \<Rightarrow> int \<Rightarrow> doc_key \<Rightarrow> int list \<Rightarrow> doc_key set \<Rightarrow> doc_key set" where
  "check_next_positions distance position doc_id [] results = results"
| "check_next_positions distance position doc_id (next_position # rest) results =
     (if \<bar>next_position - position\<bar> = distance + 1 then insert doc_id results
      else check_next_positions distance position doc_id rest results)"

text \<open>The four nested loops of lines 273 to 281: over the postings of the first term,
  over its positions, over the later terms (\<^verbatim>\<open>range(1, len(query_terms))\<close>), and over
  their positions in the same document. Every term is a key of the index here, by the
  test of line 271.\<close>

definition proximity_matches :: "int \<Rightarrow> string \<Rightarrow> string list \<Rightarrow> positional_index \<Rightarrow> doc_key set" where
  "proximity_matches distance first others positional_index =
     fold (\<lambda>(doc_id, positions).
        fold (\<lambda>position.
          fold (\<lambda>term. check_next_positions distance position doc_id
                  (dict_get (dict_get positional_index term []) doc_id []))
            others)
          positions)
       (dict_get positional_index first []) {}"

text \<open>\<^verbatim>\<open>sorted\<close> of a set of document ids: integers by value, strings by code point;
  an integer and a string do not compare.\<close>

definition sorted_keys :: "doc_key set \<Rightarrow> py_error + doc_key list" where
  "sorted_keys s =
     (if \<forall>k\<in>s. is_int_key k then Inr (map IntKey (sorted_list_of_set (int_of ` s)))
      else if \<forall>k\<in>s. \<not> is_int_key k then Inr (map StrKey (sorted_list_of_set (str_of ` s)))
      else Inl TypeError)"

definition proximity_query ::
  "(string \<Rightarrow> string list) \<Rightarrow> (string \<Rightarrow> string) \<Rightarrow> string set \<Rightarrow> string \<Rightarrow>
   positional_index \<Rightarrow> py_error + doc_key list" where
  "proximity_query word_tokenize stem stop_words query positional_index =
     (case word_tokenize query of
        [] \<Rightarrow> Inl IndexError
      | tok # toks \<Rightarrow>
          (case py_int (last (tok # toks)) of
             None \<Rightarrow> Inl ValueError
           | Some proximity_distance \<Rightarrow>
               (let query_terms = preprocess stem stop_words query in
                if list_all (\<lambda>term. map_of positional_index term \<noteq> None) query_terms then
                  (case query_terms of
                     [] \<Rightarrow> Inl IndexError
                   | first # others \<Rightarrow>
                       sorted_keys (proximity_matches proximity_distance first others positional_index))
                else Inr [])))"

subsection \<open>Instances of the library parameters\<close>

text \<open>
  \<^verbatim>\<open>PorterStemmer.stem\<close> lower-cases the word and then applies the suffix rules of
  the Porter algorithm. The rules are not part of the repository. Where the model is
  evaluated at a concrete text, the stemmer below does the lower-casing only, and the
  texts are made of words the suffix rules leave as they are (\<^verbatim>\<open>data\<close>, \<^verbatim>\<open>gold\<close>,
  \<^verbatim>\<open>fun\<close>, \<^verbatim>\<open>hello\<close>, addresses). On the proximity queries evaluated here,
  \<^verbatim>\<open>word_tokenize\<close> cuts at the blanks, as \<open>py_split\<close> does.
\<close>

definition lowercase_stem :: "string \<Rightarrow> string" where
  "lowercase_stem word = lower word"

subsection \<open>Notions used to state the properties\<close>

text \<open>A word of a boolean query that the loop of \<^verbatim>\<open>boolean_query\<close> reads as an
  operator: its lower-cased form is \<^verbatim>\<open>and\<close>, \<^verbatim>\<open>or\<close> or \<^verbatim>\<open>not\<close>.\<close>

definition is_operator :: "string \<Rightarrow> bool" where
  "is_operator w = (lower w = ''and'' \<or> lower w = ''or'' \<or> lower w = ''not'')"

text \<open>A word: a non-empty string without whitespace.\<close>

definition is_word :: "string \<Rightarrow> bool" where
  "is_word w = (w \<noteq> [] \<and> list_all (\<lambda>c. \<not> isspace c) w)"

text \<open>The test of line 279 for one later term of a proximity query: some position of the
  term in the document lies at the distance from the position of the first term.\<close>

definition near :: "int \<Rightarrow> positional_index \<Rightarrow> doc_key \<Rightarrow> int \<Rightarrow> string \<Rightarrow> bool" where
  "near distance positional_index doc_id position term =
     list_ex (\<lambda>next_position. \<bar>next_position - position\<bar> = distance + 1)
       (dict_get (dict_get positional_index term []) doc_id [])"

text \<open>The test holds for one of the later terms, and for all of them.\<close>

definition near_some_term :: "int \<Rightarrow> positional_index \<Rightarrow> string list \<Rightarrow> doc_key \<Rightarrow> int \<Rightarrow> bool" where
  "near_some_term distance positional_index others doc_id position =
     list_ex (near distance positional_index doc_id position) others"

definition near_every_term :: "int \<Rightarrow> positional_index \<Rightarrow> string list \<Rightarrow> doc_key \<Rightarrow> int \<Rightarrow> bool" where
  "near_every_term distance positional_index others doc_id position =
     list_all (near distance positional_index doc_id position) others"

text \<open>The term a raw slot of a document is indexed under: the first token the slot
  normalises to, if there is one (lines 100 to 103).\<close>

definition slot_term :: "(string \<Rightarrow> string) \<Rightarrow> string set \<Rightarrow> string \<Rightarrow> string option" where
  "slot_term stem stop_words slot =
     (case preprocess stem stop_words slot of [] \<Rightarrow> None | t # ts \<Rightarrow> Some t)"

text \<open>The numbers, in the whitespace split of the document, of the slots indexed under a
  term. The numbering (\<^verbatim>\<open>enumerate\<close>) is that of all slots, kept or not.\<close>

definition slot_positions :: "(string \<Rightarrow> string) \<Rightarrow> string set \<Rightarrow> string \<Rightarrow> string \<Rightarrow> int list" where
  "slot_positions stem stop_words term document =
     map (\<lambda>(position, slot). int position)
       (filter (\<lambda>(position, slot). slot_term stem stop_words slot = Some term)
          (enumerate 0 (py_split document)))"

text \<open>The dictionary \<^verbatim>\<open>positions\<close> of one document, and the two dictionaries before
  they are sorted.\<close>

definition doc_positions ::
  "(string \<Rightarrow> string) \<Rightarrow> string set \<Rightarrow> string \<Rightarrow> (string \<times> int list) list" where
  "doc_positions stem stop_words document =
     record_positions stem stop_words (enumerate 0 (py_split document)) []"

definition raw_indexes ::
  "(string \<Rightarrow> string) \<Rightarrow> string set \<Rightarrow> (int \<times> string) list \<Rightarrow>
   (string \<times> int set) list \<times> (string \<times> (int \<times> int list) list) list" where
  "raw_indexes stem stop_words documents = index_documents stem stop_words documents ([], [])"

text \<open>Well-formedness of the dictionaries under construction: one entry per key on both
  levels, and the documents listed for a term in the inverted index are the keys of its
  postings.\<close>

definition keys_distinct :: "('k \<times> ('d \<times> 'v) list) list \<Rightarrow> bool" where
  "keys_distinct P = (distinct (map fst P) \<and> (\<forall>t post. map_of P t = Some post \<longrightarrow> distinct (map fst post)))"

definition raw_inv :: "(string \<times> int set) list \<Rightarrow> (string \<times> (int \<times> int list) list) list \<Rightarrow> bool" where
  "raw_inv I P = (keys_distinct P \<and> (\<forall>t. finite (dict_get I t {})) \<and>
     (\<forall>t d. d \<in> dict_get I t {} \<longleftrightarrow> map_of (dict_get P t []) d \<noteq> None))"

text \<open>A collection of two documents and the state without index files, for evaluation.\<close>

definition example_documents :: "(int \<times> string) list" where
  "example_documents = [(1, ''data gold fun''), (2, ''gold data 12 data'')]"

definition no_files :: index_files where
  "no_files = \<lparr>inverted_file = None, positional_file = None\<rparr>"

section \<open>Properties\<close>

declare str_nat.simps [simp del]

lemmas char_defs =
  isspace_def code_point_def is_upper_def is_lower_def is_digit_def is_alnum_def isalpha_def
  lower_char_def lower_def local_char_def domain_char_def suffix_char_def int_space_def

lemmas normaliser_defs =
  preprocess_def process_token_def clean_token_def is_preserved_def match_word_def
  match_email_def match_url_def match_rest_def

subsection \<open>A search term that normalises to nothing\<close>

lemma query_loop_error:
  "query_loop stem stop_words inverted_index all_documents st ws = Inl e \<Longrightarrow> e = IndexError"
proof (induction ws arbitrary: st)
  case Nil
  then show ?case by simp
next
  case (Cons w ws)
  show ?case
  proof (cases "query_step stem stop_words inverted_index all_documents st w")
    case (Inl e')
    with Cons.prems have "e' = e" by simp
    with Inl show ?thesis
      by (auto simp: query_step_def Let_def split: if_splits list.splits)
  next
    case (Inr st1)
    with Cons show ?thesis by simp
  qed
qed

lemma query_loop_empty_term:
  assumes "w \<in> set ws"
      and "lower w \<noteq> ''and''" and "lower w \<noteq> ''or''" and "lower w \<noteq> ''not''"
      and "preprocess stem stop_words w = []"
  shows "query_loop stem stop_words inverted_index all_documents st ws = Inl IndexError"
  using assms(1)
proof (induction ws arbitrary: st)
  case Nil
  then show ?case by simp
next
  case (Cons v vs)
  show ?case
  proof (cases "query_step stem stop_words inverted_index all_documents st v")
    case (Inl e)
    then have "query_loop stem stop_words inverted_index all_documents st (v # vs) = Inl e"
      by simp
    then show ?thesis
      using query_loop_error by blast
  next
    case (Inr st1)
    then have "v \<noteq> w"
      using assms(2-5) by (auto simp: query_step_def)
    with Cons.prems have "w \<in> set vs" by simp
    with Cons.IH Inr show ?thesis by simp
  qed
qed

lemma boolean_query_empty_term:
  assumes "w \<in> set (py_split query)"
      and "lower w \<noteq> ''and''" and "lower w \<noteq> ''or''" and "lower w \<noteq> ''not''"
      and "preprocess stem stop_words w = []"
  shows "boolean_query stem stop_words query inverted_index all_documents = Inl IndexError"
  using query_loop_empty_term [OF assms] by (simp add: boolean_query_def)

text \<open>
  Claim C2. A search term of a boolean query that normalises to no token should count as
  the empty document set. The evaluator takes element 0 of the empty list instead: on
  the query \<^verbatim>\<open>42\<close>, whose only word has no letter, it raises \<^verbatim>\<open>IndexError\<close>, with
  any stemmer, stopword set, index and universe.
\<close>

theorem boolean_query_digits_raises:
  "boolean_query stem stop_words ''42'' inverted_index all_documents = Inl IndexError"
  by (simp add: boolean_query_def py_split_def query_step_def normaliser_defs char_defs)

subsection \<open>A proximity query whose terms all normalise to nothing\<close>

lemma preprocess_short_words: "preprocess stem stop_words ''ab cd / 1'' = []"
  by (simp add: normaliser_defs char_defs)

text \<open>
  Claim C5. A proximity query all of whose terms are dropped by the normaliser should
  have the empty result. On \<^verbatim>\<open>ab cd / 1\<close> (both words too short to be kept) the
  evaluator raises: the test of line 271 holds for the empty term list, and line 273
  takes its element 0. Whatever the tokenizer returns, the result is an exception.
\<close>

theorem proximity_query_all_dropped_raises:
  "proximity_query word_tokenize stem stop_words ''ab cd / 1'' positional_index =
     (if word_tokenize ''ab cd / 1'' = [] then Inl IndexError
      else if py_int (last (word_tokenize ''ab cd / 1'')) = None then Inl ValueError
      else Inl IndexError)"
  by (simp add: proximity_query_def preprocess_short_words split: list.splits option.splits)

subsection \<open>Decoding a saved positional index\<close>

text \<open>
  Claim C1. Decoding the saved encoding of a built index should give the index back, with
  integer document ids in the inner mappings of the positional index. For the indexes
  built from the collection \<^verbatim>\<open>{1: "data"}\<close> the inverted index comes back as it was,
  since \<^verbatim>\<open>load_inverted_index\<close> converts the ids with \<^verbatim>\<open>int\<close>; the positional
  index comes back with the key \<^verbatim>\<open>"1"\<close> in the place of \<^verbatim>\<open>1\<close>, since
  \<^verbatim>\<open>load_positional_index\<close> keeps the ids as the strings it reads.
\<close>

theorem positional_roundtrip_string_keys:
  "fresh_indexes lowercase_stem {} [(1, ''data'')] =
     ([(''data'', [1])], [(''data'', [(IntKey 1, [0])])]) \<and>
   load_inverted_index (save_inverted_index [(''data'', [1])]) = Inr [(''data'', [1])] \<and>
   load_positional_index (save_positional_index [(''data'', [(IntKey 1, [0])])]) =
     Inr [(''data'', [(StrKey ''1'', [0])])]"
  by code_simp

text \<open>A term that holds a colon, as every preserved web address does, is lost by both
  decoders: the line of the inverted index is passed over, and the line of the positional
  index is read as the term before the first colon, without postings.\<close>

lemma url_term_roundtrip:
  "fresh_indexes lowercase_stem {} [(2, ''http://a.bc'')] =
     ([(''http://a.bc'', [2])], [(''http://a.bc'', [(IntKey 2, [0])])]) \<and>
   load_inverted_index (save_inverted_index [(''http://a.bc'', [2])]) = Inr [] \<and>
   load_positional_index (save_positional_index [(''http://a.bc'', [(IntKey 2, [0])])]) =
     Inr [(''http'', [])]"
  by code_simp

subsection \<open>Boolean queries without a search term\<close>

lemma query_loop_operators:
  "list_all is_operator ws \<Longrightarrow>
   \<exists>st1. query_loop stem stop_words inverted_index all_documents st ws = Inr st1 \<and>
         result_set st1 = result_set st"
proof (induction ws arbitrary: st)
  case Nil
  then show ?case by simp
next
  case (Cons w ws)
  then have w: "is_operator w" and ws: "list_all is_operator ws" by simp_all
  from w obtain st' where
    step: "query_step stem stop_words inverted_index all_documents st w = Inr st'"
    and same: "result_set st' = result_set st"
    by (auto simp: is_operator_def query_step_def)
  from Cons.IH [OF ws, of st'] step same show ?case by simp
qed

text \<open>
  Claim C9. A boolean query all of whose words are operators (\<^verbatim>\<open>AND\<close>, \<^verbatim>\<open>OR\<close>,
  \<^verbatim>\<open>NOT\<close> in any letter case), the empty query among them, returns the empty list:
  no round of the loop touches the result set. A lone \<^verbatim>\<open>NOT\<close> does not return the
  universe.
\<close>

theorem boolean_query_only_operators:
  "list_all is_operator (py_split query) \<Longrightarrow>
   boolean_query stem stop_words query inverted_index all_documents = Inr []"
  using query_loop_operators [of "py_split query" stem stop_words inverted_index all_documents
      "\<lparr>result_set = {}, last_operation = None, not_flag = False\<rparr>"]
  by (auto simp: boolean_query_def)

theorem boolean_query_only_operators_witness:
  "list_all is_operator (py_split ''NOT'') \<and>
   boolean_query lowercase_stem {} ''NOT'' [(''data'', [1])] {1, 2} = Inr []"
proof -
  have h: "list_all is_operator (py_split ''NOT'')"
    by code_simp
  from h boolean_query_only_operators [OF h] show ?thesis by simp
qed

subsection \<open>Addresses in the normaliser\<close>

lemma findall_skip: "length cs \<le> k \<Longrightarrow> findall_words k cs = []"
  by (induction cs arbitrary: k) auto

lemma findall_whole: "match_word w = Some (length w) \<Longrightarrow> w \<noteq> [] \<Longrightarrow> findall_words 0 w = [w]"
  by (cases w) (simp_all add: findall_skip)

lemma take_prefix: "take n w = p \<Longrightarrow> w = p @ drop n w"
  by (metis append_take_drop_id)

lemma url_prefix:
  assumes "match_url w = Some n"
  shows "\<exists>r. w = ''http://'' @ r \<or> w = ''https://'' @ r"
proof -
  from assms have "take 4 w = ''http''"
    by (auto simp: match_url_def split: if_splits)
  then have w: "w = ''http'' @ drop 4 w" by (rule take_prefix)
  show ?thesis
  proof (cases "take 1 (drop 4 w) = ''s''")
    case True
    with assms have "take 3 (drop 5 w) = ''://''"
      by (auto simp: match_url_def match_rest_def split: if_splits)
    then have "drop 5 w = ''://'' @ drop 3 (drop 5 w)" by (rule take_prefix)
    moreover from True have "drop 4 w = ''s'' @ drop 1 (drop 4 w)" by (rule take_prefix)
    ultimately have "w = ''http'' @ ''s'' @ ''://'' @ drop 8 w"
      using w by simp
    then show ?thesis by auto
  next
    case False
    with assms have "take 3 (drop 4 w) = ''://''"
      by (auto simp: match_url_def match_rest_def split: if_splits)
    then have "drop 4 w = ''://'' @ drop 3 (drop 4 w)" by (rule take_prefix)
    then have "w = ''http'' @ ''://'' @ drop 7 w"
      using w by simp
    then show ?thesis by auto
  qed
qed

text \<open>A web address never matches the pattern of a mail address: the colon ends the run
  of the local part where \<^verbatim>\<open>@\<close> is required.\<close>

lemma url_not_email: "match_url w = Some n \<Longrightarrow> match_email w = None"
  using url_prefix [of w n] by (auto simp: match_email_def char_defs)

text \<open>
  What \<^verbatim>\<open>preprocess\<close> does with a word that the mail or the web pattern matches whole,
  with a letter and more than two characters: the word is not cleaned, lower-cased or
  stripped of its digits, and it is then handed to the stemmer and tested against the
  stopwords like every other token (lines 60 to 62, which have no test for addresses).
\<close>

lemma preserved_token_stemmed:
  assumes "match_email w = Some (length w) \<or> match_url w = Some (length w)"
      and "list_ex isalpha w" and "2 < length w"
  shows "preprocess stem stop_words w = (if stem w \<in> stop_words then [] else [stem w])"
proof -
  from assms(3) have ne: "w \<noteq> []" by auto
  from assms(1) have mw: "match_word w = Some (length w)"
    by (auto simp: match_word_def url_not_email)
  from assms(1) have pres: "is_preserved w"
    by (auto simp: is_preserved_def)
  have "findall_words 0 w = [w]"
    using mw ne by (rule findall_whole)
  then show ?thesis
    using pres assms(2,3) by (simp add: preprocess_def clean_token_def process_token_def)
qed

lemma example_url_matches:
  "match_url ''http://Example.com'' = Some (length ''http://Example.com'')"
  "list_ex isalpha ''http://Example.com''"
  by code_simp+

text \<open>
  Claim C3. A word that matches the mail or the web pattern and passes the filter should
  be emitted unchanged, original case kept. The normaliser hands the word
  \<^verbatim>\<open>http://Example.com\<close> to the stemmer, whatever the stemmer and the stopwords are,
  and emits what the stemmer returns; with a stemmer that lower-cases, as the one of NLTK
  does, the output is \<^verbatim>\<open>http://example.com\<close>.
\<close>

theorem preserved_token_changed:
  "preprocess stem stop_words ''http://Example.com'' =
     (if stem ''http://Example.com'' \<in> stop_words then []
      else [stem ''http://Example.com'']) \<and>
   preprocess lowercase_stem {} ''http://Example.com'' = [''http://example.com'']"
proof -
  have m: "match_email ''http://Example.com'' = Some (length ''http://Example.com'') \<or>
           match_url ''http://Example.com'' = Some (length ''http://Example.com'')"
    using example_url_matches(1) by (rule disjI2)
  have len: "2 < length ''http://Example.com''"
    by simp
  have "preprocess stem stop_words ''http://Example.com'' =
     (if stem ''http://Example.com'' \<in> stop_words then []
      else [stem ''http://Example.com''])"
    by (rule preserved_token_stemmed [OF m example_url_matches(2) len])
  moreover have "preprocess lowercase_stem {} ''http://Example.com'' = [''http://example.com'']"
    by code_simp
  ultimately show ?thesis by simp
qed

subsection \<open>Negation and grouping in boolean queries\<close>

lemma lower_NOT: "lower ''NOT'' = ''not''"
  by code_simp

lemma lower_OR: "lower ''OR'' = ''or''"
  by code_simp

lemma lower_AND: "lower ''AND'' = ''and''"
  by code_simp

lemma isspace_blank: "isspace CHR '' ''"
  by code_simp

lemma split_ws_run:
  "list_all (\<lambda>c. \<not> isspace c) w \<Longrightarrow> split_ws cur (w @ rest) = split_ws (cur @ w) rest"
  by (induction w arbitrary: cur) simp_all

lemma split_ws_word: "is_word w \<Longrightarrow> split_ws [] (w @ CHR '' '' # rest) = w # split_ws [] rest"
  by (simp add: is_word_def split_ws_run isspace_blank)

lemma split_ws_last: "is_word w \<Longrightarrow> split_ws [] w = [w]"
  using split_ws_run [of w "[]" "[]"] by (simp add: is_word_def)

lemma is_word_NOT: "is_word ''NOT''"
  by code_simp

lemma is_word_OR: "is_word ''OR''"
  by code_simp

lemma is_word_AND: "is_word ''AND''"
  by code_simp

lemma split_not_or_not:
  assumes "is_word wa" "is_word wb"
  shows "py_split (''NOT '' @ wa @ '' OR NOT '' @ wb) = [''NOT'', wa, ''OR'', ''NOT'', wb]"
proof -
  have "''NOT '' @ wa @ '' OR NOT '' @ wb
       = ''NOT'' @ CHR '' '' # (wa @ CHR '' '' # (''OR'' @ CHR '' '' # (''NOT'' @ CHR '' '' # wb)))"
    by simp
  then show ?thesis
    unfolding py_split_def
    by (simp only: split_ws_word [OF is_word_NOT] split_ws_word [OF is_word_OR]
        split_ws_word [OF assms(1)] split_ws_last [OF assms(2)])
qed

lemma split_not_and:
  assumes "is_word wa" "is_word wb"
  shows "py_split (''NOT '' @ wa @ '' AND '' @ wb) = [''NOT'', wa, ''AND'', wb]"
proof -
  have "''NOT '' @ wa @ '' AND '' @ wb
       = ''NOT'' @ CHR '' '' # (wa @ CHR '' '' # (''AND'' @ CHR '' '' # wb))"
    by simp
  then show ?thesis
    unfolding py_split_def
    by (simp only: split_ws_word [OF is_word_NOT] split_ws_word [OF is_word_AND]
        split_ws_word [OF assms(1)] split_ws_last [OF assms(2)])
qed

lemma step_NOT:
  "query_step stem stop_words idx U st ''NOT'' = Inr (st\<lparr>not_flag := \<not> not_flag st\<rparr>)"
  by (simp add: query_step_def lower_NOT)

lemma step_OR:
  "query_step stem stop_words idx U st ''OR'' =
     Inr (st\<lparr>last_operation := Some OR, not_flag := False\<rparr>)"
  by (simp add: query_step_def lower_OR)

lemma step_AND:
  "query_step stem stop_words idx U st ''AND'' =
     Inr (st\<lparr>last_operation := Some AND, not_flag := False\<rparr>)"
  by (simp add: query_step_def lower_AND)

lemma step_term:
  "\<not> is_operator w \<Longrightarrow> preprocess stem stop_words w = t # ts \<Longrightarrow>
   query_step stem stop_words idx U st w =
     Inr (st\<lparr>result_set :=
          (let found = set (dict_get idx t []);
               term_results = (if not_flag st then U - found else found)
           in case last_operation st of
                Some AND \<Rightarrow> result_set st \<inter> term_results
              | Some OR \<Rightarrow> result_set st \<union> term_results
              | None \<Rightarrow> term_results)\<rparr>)"
  by (simp add: query_step_def is_operator_def Let_def)

text \<open>
  Claim C7, as the code has it. The evaluator has no grouping: it folds the words from left
  to right. For two search words that normalise to the terms \<open>ta\<close> and \<open>tb\<close>, the query
  \<^verbatim>\<open>NOT a OR NOT b\<close> returns the sorted complement, in the universe, of the documents
  that hold both terms, which is the value of \<^verbatim>\<open>NOT (a AND b)\<close>; the query
  \<^verbatim>\<open>NOT a AND b\<close> returns the documents of \<open>tb\<close> outside those of \<open>ta\<close>.
\<close>

theorem flat_de_morgan:
  assumes "is_word wa" "\<not> is_operator wa" "preprocess stem stop_words wa = ta # ra"
      and "is_word wb" "\<not> is_operator wb" "preprocess stem stop_words wb = tb # rb"
  shows "boolean_query stem stop_words (''NOT '' @ wa @ '' OR NOT '' @ wb) idx U =
           Inr (sorted_list_of_set (U - (set (dict_get idx ta []) \<inter> set (dict_get idx tb [])))) \<and>
         boolean_query stem stop_words (''NOT '' @ wa @ '' AND '' @ wb) idx U =
           Inr (sorted_list_of_set ((U - set (dict_get idx ta [])) \<inter> set (dict_get idx tb [])))"
proof -
  have "(U - set (dict_get idx ta [])) \<union> (U - set (dict_get idx tb []))
      = U - (set (dict_get idx ta []) \<inter> set (dict_get idx tb []))"
    by blast
  then show ?thesis
    unfolding boolean_query_def split_not_or_not [OF assms(1,4)] split_not_and [OF assms(1,4)]
    by (simp add: step_NOT step_OR step_AND step_term [OF assms(2,3)] step_term [OF assms(5,6)])
qed

theorem flat_de_morgan_witness:
  "is_word ''data'' \<and> \<not> is_operator ''data'' \<and> preprocess lowercase_stem {} ''data'' = [''data''] \<and>
   is_word ''gold'' \<and> \<not> is_operator ''gold'' \<and> preprocess lowercase_stem {} ''gold'' = [''gold''] \<and>
   boolean_query lowercase_stem {} ''NOT data OR NOT gold''
     [(''data'', [1]), (''fun'', [2]), (''gold'', [1])] {1, 2} = Inr [2] \<and>
   boolean_query lowercase_stem {} ''NOT data AND gold''
     [(''data'', [1]), (''fun'', [2]), (''gold'', [1])] {1, 2} = Inr []"
proof -
  have a: "is_word ''data''" "\<not> is_operator ''data''"
    "preprocess lowercase_stem {} ''data'' = [''data'']"
    by code_simp+
  have b: "is_word ''gold''" "\<not> is_operator ''gold''"
    "preprocess lowercase_stem {} ''gold'' = [''gold'']"
    by code_simp+
  have s1: "sorted_list_of_set ({1, 2} -
       (set (dict_get [(''data'', [1]), (''fun'', [2]), (''gold'', [1])] ''data'' []) \<inter>
        set (dict_get [(''data'', [1]), (''fun'', [2]), (''gold'', [1])] ''gold'' []))) = [2::int]"
    by code_simp
  have s2: "sorted_list_of_set
       (({1, 2} - set (dict_get [(''data'', [1]), (''fun'', [2]), (''gold'', [1])] ''data'' [])) \<inter>
        set (dict_get [(''data'', [1]), (''fun'', [2]), (''gold'', [1])] ''gold'' [])) = ([]::int list)"
    by code_simp
  from flat_de_morgan [OF a b, of "[(''data'', [1]), (''fun'', [2]), (''gold'', [1])]" "{1, 2}"]
    a b s1 s2
  show ?thesis by simp
qed

text \<open>
  Claim C7 as the specification states it fails. Over the index of the collection
  \<^verbatim>\<open>{1: "data gold", 2: "fun"}\<close> and the universe \<^verbatim>\<open>{1, 2}\<close>, the query
  \<^verbatim>\<open>NOT (data AND gold)\<close> returns no document and \<^verbatim>\<open>(NOT data) OR (NOT gold)\<close>
  returns document 1: the brackets are punctuation that the normaliser strips, and
  \<^verbatim>\<open>(NOT\<close> is a search word. Without the brackets the two queries differ as well.
\<close>

theorem grouped_de_morgan_fails:
  "boolean_query lowercase_stem {} ''NOT (data AND gold)''
     [(''data'', [1]), (''fun'', [2]), (''gold'', [1])] {1, 2} = Inr [] \<and>
   boolean_query lowercase_stem {} ''(NOT data) OR (NOT gold)''
     [(''data'', [1]), (''fun'', [2]), (''gold'', [1])] {1, 2} = Inr [1] \<and>
   boolean_query lowercase_stem {} ''NOT data AND gold''
     [(''data'', [1]), (''fun'', [2]), (''gold'', [1])] {1, 2} = Inr [] \<and>
   boolean_query lowercase_stem {} ''NOT data OR NOT gold''
     [(''data'', [1]), (''fun'', [2]), (''gold'', [1])] {1, 2} = Inr [2]"
  by code_simp

subsection \<open>Proximity queries\<close>

lemma check_next_positions_iff:
  "d' \<in> check_next_positions k p d qs R \<longleftrightarrow> d' \<in> R \<or> (d' = d \<and> list_ex (\<lambda>q. \<bar>q - p\<bar> = k + 1) qs)"
  by (induction qs) auto

lemma fold_terms_iff:
  "d' \<in> fold (\<lambda>t. check_next_positions k p d (dict_get (dict_get P t []) d [])) ts R
     \<longleftrightarrow> d' \<in> R \<or> (d' = d \<and> near_some_term k P ts d p)"
  by (induction ts arbitrary: R) (auto simp: check_next_positions_iff near_some_term_def near_def)

lemma fold_positions_iff:
  "d' \<in> fold (\<lambda>p. fold (\<lambda>t. check_next_positions k p d (dict_get (dict_get P t []) d [])) ts) ps R
     \<longleftrightarrow> d' \<in> R \<or> (d' = d \<and> (\<exists>p\<in>set ps. near_some_term k P ts d p))"
  by (induction ps arbitrary: R) (auto simp: fold_terms_iff)

lemma fold_postings_iff:
  "d' \<in> fold (\<lambda>(d, ps). fold (\<lambda>p. fold (\<lambda>t. check_next_positions k p d
            (dict_get (dict_get P t []) d [])) ts) ps) items R
     \<longleftrightarrow> d' \<in> R \<or> (\<exists>ps p. (d', ps) \<in> set items \<and> p \<in> set ps \<and> near_some_term k P ts d' p)"
proof (induction items arbitrary: R)
  case Nil
  show ?case by simp
next
  case (Cons item items)
  obtain d ps where item: "item = (d, ps)" by (cases item)
  show ?case
    unfolding item by (simp add: Cons.IH fold_positions_iff) blast
qed

lemma proximity_matches_iff:
  "d \<in> proximity_matches k first others P \<longleftrightarrow>
     (\<exists>ps p. (d, ps) \<in> set (dict_get P first []) \<and> p \<in> set ps \<and> near_some_term k P others d p)"
  by (simp add: proximity_matches_def fold_postings_iff)

lemma proximity_matches_keys:
  "proximity_matches k first others P \<subseteq> fst ` set (dict_get P first [])"
  by (force simp: proximity_matches_iff)

lemma sorted_keys_int:
  assumes "finite S" "\<forall>k\<in>S. is_int_key k"
  shows "\<exists>ds. sorted_keys S = Inr ds \<and> set ds = S"
proof -
  have "IntKey ` int_of ` S = S"
  proof -
    have "IntKey (int_of k) = k" if "k \<in> S" for k
      using assms(2) that by (cases k) auto
    then show ?thesis by force
  qed
  with assms show ?thesis
    by (simp add: sorted_keys_def image_image[symmetric] del: image_image)
qed

lemma sorted_keys_str:
  assumes "finite S" "\<forall>k\<in>S. \<not> is_int_key k"
  shows "\<exists>ds. sorted_keys S = Inr ds \<and> set ds = S"
proof -
  have "StrKey ` str_of ` S = S"
  proof -
    have "StrKey (str_of k) = k" if "k \<in> S" for k
      using assms(2) that by (cases k) auto
    then show ?thesis by force
  qed
  with assms show ?thesis
    by (auto simp add: sorted_keys_def image_image[symmetric] simp del: image_image)
qed

lemma near_single: "near_some_term k P [t] d p = near_every_term k P [t] d p"
  by (simp add: near_some_term_def near_every_term_def)

text \<open>
  Claim C4, as the code has it. When the tokenizer yields the distance \<open>k\<close>, the
  normalised query is \<open>first # others\<close>, every term is a key of the index and the
  document ids of the first term are of one kind, the evaluator returns a list, and a
  document id is in it exactly when the document holds a position \<open>p\<close> of the first term
  and SOME later term has a position \<open>q\<close> in the same document with
  \<open>\<bar>q - p\<bar> = k + 1\<close>: line 280 adds the document at the first later term that
  qualifies. For a query of two terms this is the condition on every later term
  (\<open>near_single\<close>); for a query of one term the result is empty.
\<close>

theorem proximity_query_some_term:
  assumes "word_tokenize query = toks" and "toks \<noteq> []" and "py_int (last toks) = Some k"
      and "preprocess stem stop_words query = first # others"
      and "list_all (\<lambda>t. map_of P t \<noteq> None) (first # others)"
      and "list_all (\<lambda>(d, ps). is_int_key d) (dict_get P first []) \<or>
           list_all (\<lambda>(d, ps). \<not> is_int_key d) (dict_get P first [])"
  shows "\<exists>ds. proximity_query word_tokenize stem stop_words query P = Inr ds \<and>
           (\<forall>d. d \<in> set ds \<longleftrightarrow>
              (\<exists>ps p. (d, ps) \<in> set (dict_get P first []) \<and> p \<in> set ps \<and>
                      near_some_term k P others d p))"
proof -
  let ?S = "proximity_matches k first others P"
  have fin: "finite ?S"
    using proximity_matches_keys by (rule finite_subset) simp
  have "(\<forall>d\<in>?S. is_int_key d) \<or> (\<forall>d\<in>?S. \<not> is_int_key d)"
    using assms(6) proximity_matches_keys [of k first others P]
    by (fastforce simp: list_all_iff)
  then obtain ds where ds: "sorted_keys ?S = Inr ds" "set ds = ?S"
    using sorted_keys_int [OF fin] sorted_keys_str [OF fin] by blast
  have "proximity_query word_tokenize stem stop_words query P = sorted_keys ?S"
    using assms(1-5) by (cases toks) (simp_all add: proximity_query_def)
  with ds show ?thesis
    by (simp add: proximity_matches_iff)
qed

theorem proximity_query_some_term_witness:
  "py_split ''data gold / 0'' = [''data'', ''gold'', ''/'', ''0''] \<and>
   py_int (last [''data'', ''gold'', ''/'', ''0'']) = Some 0 \<and>
   preprocess lowercase_stem {} ''data gold / 0'' = [''data'', ''gold''] \<and>
   proximity_query py_split lowercase_stem {} ''data gold / 0''
     [(''data'', [(IntKey 1, [0])]), (''fun'', [(IntKey 1, [5])]), (''gold'', [(IntKey 1, [1])])] =
     Inr [IntKey 1] \<and>
   near_some_term 0
     [(''data'', [(IntKey 1, [0])]), (''fun'', [(IntKey 1, [5])]), (''gold'', [(IntKey 1, [1])])]
     [''gold''] (IntKey 1) 0"
proof -
  let ?P = "[(''data'', [(IntKey 1, [0])]), (''fun'', [(IntKey 1, [5])]),
             (''gold'', [(IntKey 1, [1::int])])]"
  have 1: "py_split ''data gold / 0'' = [''data'', ''gold'', ''/'', ''0'']" by code_simp
  have 2: "[''data'', ''gold'', ''/'', ''0''] \<noteq> []" by simp
  have 3: "py_int (last [''data'', ''gold'', ''/'', ''0'']) = Some 0" by code_simp
  have 4: "preprocess lowercase_stem {} ''data gold / 0'' = [''data'', ''gold'']" by code_simp
  have 5: "list_all (\<lambda>t. map_of ?P t \<noteq> None) [''data'', ''gold'']" by simp
  have 6: "list_all (\<lambda>(d, ps). is_int_key d) (dict_get ?P ''data'' [])"
    by (simp add: dict_get_def)
  have 7: "proximity_query py_split lowercase_stem {} ''data gold / 0'' ?P = Inr [IntKey 1]"
    by code_simp
  have 8: "near_some_term 0 ?P [''gold''] (IntKey 1) 0" by code_simp
  have 9: "list_all (\<lambda>(d, ps). is_int_key d) (dict_get ?P ''data'' []) \<or>
           list_all (\<lambda>(d, ps). \<not> is_int_key d) (dict_get ?P ''data'' [])"
    using 6 by (rule disjI1)
  note proximity_query_some_term [where word_tokenize = py_split
      and query = "''data gold / 0''" and stem = lowercase_stem
      and stop_words = "{}" and P = ?P, OF 1 2 3 4 5 9]
  with 1 3 4 7 8 show ?thesis by simp
qed

text \<open>
  Claim C4 as the specification states it fails. In the index of the collection
  \<^verbatim>\<open>{1: "data gold 1 2 3 fun"}\<close> the term \<^verbatim>\<open>gold\<close> stands next to \<^verbatim>\<open>data\<close>
  and \<^verbatim>\<open>fun\<close> does not, yet the query \<^verbatim>\<open>data gold fun / 0\<close> returns document 1.
\<close>

theorem proximity_query_not_every_term:
  "snd (fresh_indexes lowercase_stem {} [(1, ''data gold 1 2 3 fun'')]) =
     [(''data'', [(IntKey 1, [0])]), (''fun'', [(IntKey 1, [5])]), (''gold'', [(IntKey 1, [1])])] \<and>
   proximity_query py_split lowercase_stem {} ''data gold fun / 0''
     [(''data'', [(IntKey 1, [0])]), (''fun'', [(IntKey 1, [5])]), (''gold'', [(IntKey 1, [1])])] =
     Inr [IntKey 1] \<and>
   \<not> near_every_term 0
       [(''data'', [(IntKey 1, [0])]), (''fun'', [(IntKey 1, [5])]), (''gold'', [(IntKey 1, [1])])]
       [''gold'', ''fun''] (IntKey 1) 0"
  by code_simp

subsection \<open>The indexes built from a collection\<close>

lemma record_positions_lookup:
  "map_of (record_positions stem stop_words xs acc) t =
     (let new = map (\<lambda>(p, s). int p) (filter (\<lambda>(p, s). slot_term stem stop_words s = Some t) xs)
      in if new = [] then map_of acc t else Some (dict_get acc t [] @ new))"
proof (induction xs arbitrary: acc)
  case Nil
  show ?case by simp
next
  case (Cons x xs)
  obtain p s where x: "x = (p, s)" by (cases x)
  show ?case
  proof (cases "preprocess stem stop_words s")
    case Nil
    then show ?thesis
      unfolding x by (simp add: Cons.IH slot_term_def)
  next
    case (Cons t0 ts)
    then show ?thesis
      unfolding x by (simp add: Cons.IH slot_term_def update_conv' dict_get_def Let_def)
  qed
qed

lemma record_positions_distinct:
  "distinct (map fst acc) \<Longrightarrow> distinct (map fst (record_positions stem stop_words xs acc))"
proof (induction xs arbitrary: acc)
  case Nil
  then show ?case by simp
next
  case (Cons x xs)
  obtain p s where x: "x = (p, s)" by (cases x)
  from Cons show ?case
    unfolding x by (cases "preprocess stem stop_words s") (simp_all add: distinct_update)
qed

lemma doc_positions_lookup:
  "map_of (doc_positions stem stop_words document) t =
     (if slot_positions stem stop_words t document = [] then None
      else Some (slot_positions stem stop_words t document))"
  by (simp add: doc_positions_def record_positions_lookup slot_positions_def dict_get_def Let_def)

lemma doc_positions_distinct: "distinct (map fst (doc_positions stem stop_words document))"
  by (simp add: doc_positions_def record_positions_distinct)

lemma dict_get_update:
  "dict_get (AList.update k v al) k' dflt = (if k' = k then v else dict_get al k' dflt)"
  by (simp add: dict_get_def update_conv')

lemma dict_get_Nil: "dict_get [] k dflt = dflt"
  by (simp add: dict_get_def)

lemma index_document_positional:
  "distinct (map fst positions) \<Longrightarrow>
   map_of (dict_get (snd (index_document d positions (I, P))) t []) d' =
     (if d' = d then
        (case map_of positions t of
           None \<Rightarrow> map_of (dict_get P t []) d
         | Some tps \<Rightarrow> Some (dict_get (dict_get P t []) d [] @ tps))
      else map_of (dict_get P t []) d')"
proof (induction positions arbitrary: I P)
  case Nil
  show ?case by simp
next
  case (Cons x positions)
  obtain tok tps where x: "x = (tok, tps)" by (cases x)
  from Cons.prems have d: "distinct (map fst positions)" and n: "map_of positions tok = None"
    unfolding x by (simp_all add: map_of_eq_None_iff)
  show ?case
    unfolding x using n
    by (simp add: Let_def Cons.IH [OF d] update_conv' dict_get_update split: option.splits)
qed

lemma index_document_inverted:
  "dict_get (fst (index_document d positions (I, P))) t {} =
     (if t \<in> fst ` set positions then insert d (dict_get I t {}) else dict_get I t {})"
proof (induction positions arbitrary: I P)
  case Nil
  show ?case by simp
next
  case (Cons x positions)
  obtain tok tps where x: "x = (tok, tps)" by (cases x)
  show ?case
    unfolding x by (auto simp add: Let_def Cons.IH dict_get_update)
qed

lemma index_document_distinct:
  "keys_distinct P \<Longrightarrow> keys_distinct (snd (index_document d positions (I, P)))"
proof (induction positions arbitrary: I P)
  case Nil
  then show ?case by simp
next
  case (Cons x positions)
  obtain tok tps where x: "x = (tok, tps)" by (cases x)
  let ?post = "dict_get P tok []"
  let ?P1 = "AList.update tok (AList.update d (dict_get ?post d [] @ tps) ?post) P"
  have "distinct (map fst ?post)"
    using Cons.prems by (auto simp: keys_distinct_def dict_get_def split: option.splits)
  then have "keys_distinct ?P1"
    using Cons.prems by (auto simp: keys_distinct_def distinct_update update_conv')
  then show ?case
    unfolding x by (simp add: Let_def Cons.IH)
qed


lemma index_document_inv:
  assumes "distinct (map fst positions)" and "raw_inv I P"
  shows "raw_inv (fst (index_document d positions (I, P))) (snd (index_document d positions (I, P)))"
proof -
  have keys: "t \<in> fst ` set positions \<longleftrightarrow> map_of positions t \<noteq> None" for t
    by (simp add: map_of_eq_None_iff)
  have "keys_distinct (snd (index_document d positions (I, P)))"
    using assms(2) by (simp add: raw_inv_def index_document_distinct)
  moreover have "finite (dict_get (fst (index_document d positions (I, P))) t {})" for t
    using assms(2) by (simp add: raw_inv_def index_document_inverted)
  moreover have "d' \<in> dict_get (fst (index_document d positions (I, P))) t {} \<longleftrightarrow>
      map_of (dict_get (snd (index_document d positions (I, P))) t []) d' \<noteq> None" for t d'
    using assms(2)
    by (auto simp: raw_inv_def index_document_inverted keys
        index_document_positional [OF assms(1)] split: option.splits)
  ultimately show ?thesis
    by (simp add: raw_inv_def)
qed

lemma index_documents_inv:
  "raw_inv I P \<Longrightarrow>
   raw_inv (fst (index_documents stem stop_words docs (I, P)))
           (snd (index_documents stem stop_words docs (I, P)))"
proof (induction docs arbitrary: I P)
  case Nil
  then show ?case by simp
next
  case (Cons x docs)
  obtain d0 text0 where x: "x = (d0, text0)" by (cases x)
  let ?pos = "doc_positions stem stop_words text0"
  obtain I1 P1 where ip: "index_document d0 ?pos (I, P) = (I1, P1)"
    by (cases "index_document d0 ?pos (I, P)")
  have "raw_inv I1 P1"
    using index_document_inv [OF doc_positions_distinct Cons.prems, where d = d0 and stem1 = stem
        and stop_words1 = stop_words and document1 = text0] ip
    by simp
  from Cons.IH [OF this] show ?case
    unfolding x using ip by (simp add: doc_positions_def)
qed

lemma index_documents_positional:
  assumes "distinct (map fst docs)"
      and "\<forall>t. \<forall>d\<in>fst ` set docs. map_of (dict_get P t []) d = None"
  shows "map_of (dict_get (snd (index_documents stem stop_words docs (I, P))) t []) d =
     (case map_of docs d of
        None \<Rightarrow> map_of (dict_get P t []) d
      | Some text \<Rightarrow>
          if slot_positions stem stop_words t text = [] then None
          else Some (slot_positions stem stop_words t text))"
  using assms
proof (induction docs arbitrary: I P)
  case Nil
  then show ?case by simp
next
  case (Cons x docs)
  obtain d0 text0 where x: "x = (d0, text0)" by (cases x)
  let ?pos = "doc_positions stem stop_words text0"
  obtain I1 P1 where ip: "index_document d0 ?pos (I, P) = (I1, P1)"
    by (cases "index_document d0 ?pos (I, P)")
  have P1: "map_of (dict_get P1 t []) d' =
     (if d' = d0 then
        (case map_of ?pos t of
           None \<Rightarrow> map_of (dict_get P t []) d0
         | Some tps \<Rightarrow> Some (dict_get (dict_get P t []) d0 [] @ tps))
      else map_of (dict_get P t []) d')" for t d'
    using index_document_positional [OF doc_positions_distinct, where d = d0 and I = I and P = P
        and t = t and d' = d' and stem1 = stem and stop_words1 = stop_words and document1 = text0] ip
    by simp
  from Cons.prems(1) have dist: "distinct (map fst docs)" and notin: "d0 \<notin> fst ` set docs"
    unfolding x by simp_all
  have none0: "map_of (dict_get P t []) d0 = None" for t
    using Cons.prems(2) unfolding x by simp
  have pre: "\<forall>t. \<forall>d\<in>fst ` set docs. map_of (dict_get P1 t []) d = None"
    using Cons.prems(2) notin unfolding x by (auto simp: P1)
  have d0: "map_of docs d0 = None"
    using notin by (simp add: map_of_eq_None_iff)
  have res: "snd (index_documents stem stop_words ((d0, text0) # docs) (I, P)) =
             snd (index_documents stem stop_words docs (I1, P1))"
    using ip by (simp add: doc_positions_def)
  note IH = Cons.IH [OF dist pre, of I1]
  show ?case
  proof (cases "d = d0")
    case True
    have "dict_get (dict_get P t []) d0 [] = []"
      using none0 [of t] by (simp add: dict_get_def)
    then show ?thesis
      unfolding x res using IH True d0 none0 [of t]
      by (simp add: P1 doc_positions_lookup)
  next
    case False
    then show ?thesis
      unfolding x res using IH by (simp add: P1 split: option.splits)
  qed
qed


lemma enumerate_sorted: "sorted_wrt (\<lambda>a b. fst a < fst b) (enumerate n xs)"
  by (induction xs arbitrary: n) (auto simp: in_set_enumerate_eq)

lemma slot_positions_sorted: "sorted_wrt (<) (slot_positions stem stop_words t document)"
proof -
  have "sorted_wrt (\<lambda>a b. fst a < fst b)
          (filter (\<lambda>(position, slot). slot_term stem stop_words slot = Some t)
             (enumerate 0 (py_split document)))"
    by (rule sorted_wrt_filter) (rule enumerate_sorted)
  then show ?thesis
    by (simp add: slot_positions_def sorted_wrt_map case_prod_beta)
qed

lemma sort_strict: "sorted_wrt (<) xs \<Longrightarrow> sort xs = xs"
  by (simp add: strict_sorted_iff sorted_sort_id)

lemma sort_inverted_lookup:
  "map_of (sort_inverted ix) t =
     (if t \<in> fst ` set ix then Some (sorted_list_of_set (dict_get ix t {})) else None)"
  by (simp add: sort_inverted_def map_of_map_restrict restrict_map_def)

lemma sort_inverted_get:
  "dict_get (sort_inverted ix) t [] = sorted_list_of_set (dict_get ix t {})"
proof (cases "t \<in> fst ` set ix")
  case True
  then show ?thesis by (simp add: dict_get_def [of "sort_inverted ix"] sort_inverted_lookup)
next
  case False
  then have "map_of ix t = None" by (simp add: map_of_eq_None_iff)
  with False show ?thesis by (simp add: dict_get_def sort_inverted_lookup)
qed

lemma sort_inverted_entries: "(t, ids) \<in> set (sort_inverted ix) \<Longrightarrow> sorted_wrt (<) ids"
  by (auto simp: sort_inverted_def)

lemma sort_postings_keys:
  "distinct (map fst items) \<Longrightarrow> distinct (map fst (sort_postings items))"
  by (simp add: sort_postings_def distinct_map case_prod_beta comp_def)

lemma sort_key_lookup:
  assumes "distinct (map fst items)"
  shows "map_of (sort_key fst items) = map_of items"
proof -
  have "distinct (map fst (sort_key fst items))"
    using assms by (simp add: distinct_map)
  then show ?thesis
    using assms by (simp add: map_of_inject_set)
qed

lemma sort_postings_lookup:
  "distinct (map fst items) \<Longrightarrow> map_of (sort_postings items) d = map_option sort (map_of items d)"
  by (simp add: sort_postings_def map_of_map sort_key_lookup)

lemma sort_postings_Nil: "sort_postings [] = []"
  by (simp add: sort_postings_def)

lemma sort_positional_lookup:
  "map_of (sort_positional pos) t = map_option sort_postings (map_of pos t)"
proof -
  let ?pos1 = "map (\<lambda>(term, items). (term, sort_postings items)) pos"
  have keys: "map fst ?pos1 = map fst pos" by (simp add: case_prod_beta comp_def)
  have look: "map_of ?pos1 t = map_option sort_postings (map_of pos t)"
    by (simp add: map_of_map)
  show ?thesis
  proof (cases "t \<in> fst ` set pos")
    case True
    then obtain items where "map_of pos t = Some items"
      by (cases "map_of pos t") (auto simp: map_of_eq_None_iff)
    with True show ?thesis
      using keys by (simp add: sort_positional_def Let_def map_of_map_restrict restrict_map_def
          dict_get_def look del: map_map)
  next
    case False
    then have "map_of pos t = None" by (simp add: map_of_eq_None_iff)
    with False show ?thesis
      using keys by (simp add: sort_positional_def Let_def map_of_map_restrict restrict_map_def del: map_map)
  qed
qed

lemma int_keys_lookup:
  "map_of (int_keys pos) t = map_option (map (\<lambda>(d, ps). (IntKey d, ps))) (map_of pos t)"
  by (simp add: int_keys_def map_of_map)

lemma map_of_int_key:
  "map_of (map (\<lambda>(d, ps). (IntKey d, ps)) items) k =
     (case k of IntKey d \<Rightarrow> map_of items d | StrKey s \<Rightarrow> None)"
  by (induction items) (auto split: doc_key.splits)

lemma final_postings:
  "dict_get (int_keys (sort_positional pos)) t [] =
     map (\<lambda>(d, ps). (IntKey d, ps)) (sort_postings (dict_get pos t []))"
  by (cases "map_of pos t")
     (simp_all add: dict_get_def int_keys_lookup sort_positional_lookup sort_postings_Nil)

lemma raw_inv_Nil: "raw_inv [] []"
  by (simp add: raw_inv_def keys_distinct_def dict_get_def)

lemma keys_distinct_get: "keys_distinct P \<Longrightarrow> distinct (map fst (dict_get P t []))"
  by (auto simp: keys_distinct_def dict_get_def split: option.splits)

lemma fresh_indexes_raw:
  "fresh_indexes stem stop_words documents =
     (sort_inverted (fst (raw_indexes stem stop_words documents)),
      int_keys (sort_positional (snd (raw_indexes stem stop_words documents))))"
  by (simp add: fresh_indexes_def raw_indexes_def case_prod_beta)

lemma raw_inv_raw: "raw_inv (fst (raw_indexes stem stop_words documents)) (snd (raw_indexes stem stop_words documents))"
  unfolding raw_indexes_def by (rule index_documents_inv) (rule raw_inv_Nil)

lemma raw_lookup:
  assumes "distinct (map fst documents)"
  shows "map_of (dict_get (snd (raw_indexes stem stop_words documents)) t []) d =
     (case map_of documents d of
        None \<Rightarrow> None
      | Some text \<Rightarrow>
          if slot_positions stem stop_words t text = [] then None
          else Some (slot_positions stem stop_words t text))"
  unfolding raw_indexes_def
  by (subst index_documents_positional [OF assms]) (simp_all add: dict_get_def split: option.splits)

lemma fresh_positional_lookup:
  assumes "distinct (map fst documents)"
  shows "map_of (dict_get (snd (fresh_indexes stem stop_words documents)) t []) k =
     (case k of
        IntKey d \<Rightarrow>
          (case map_of documents d of
             None \<Rightarrow> None
           | Some text \<Rightarrow>
               if slot_positions stem stop_words t text = [] then None
               else Some (slot_positions stem stop_words t text))
      | StrKey s \<Rightarrow> None)"
proof -
  let ?P = "snd (raw_indexes stem stop_words documents)"
  have "keys_distinct ?P"
    using raw_inv_raw [of stem stop_words documents] by (simp add: raw_inv_def)
  then have dist: "distinct (map fst (dict_get ?P t []))"
    by (rule keys_distinct_get)
  show ?thesis
    by (simp add: fresh_indexes_raw final_postings map_of_int_key sort_postings_lookup [OF dist]
        raw_lookup [OF assms] sort_strict [OF slot_positions_sorted]
        split: doc_key.splits option.splits)
qed

lemma fresh_inverted_members:
  assumes "distinct (map fst documents)"
  shows "d \<in> set (dict_get (fst (fresh_indexes stem stop_words documents)) t []) \<longleftrightarrow>
     (\<exists>text. map_of documents d = Some text \<and> slot_positions stem stop_words t text \<noteq> [])"
proof -
  let ?I = "fst (raw_indexes stem stop_words documents)"
  let ?P = "snd (raw_indexes stem stop_words documents)"
  have ix: "raw_inv ?I ?P" by (rule raw_inv_raw)
  then have "finite (dict_get ?I t {})" by (simp add: raw_inv_def)
  then have "d \<in> set (dict_get (fst (fresh_indexes stem stop_words documents)) t []) \<longleftrightarrow>
      d \<in> dict_get ?I t {}"
    by (simp add: fresh_indexes_raw sort_inverted_get)
  also have "\<dots> \<longleftrightarrow> map_of (dict_get ?P t []) d \<noteq> None"
    using ix by (simp add: raw_inv_def)
  also have "\<dots> \<longleftrightarrow> (\<exists>text. map_of documents d = Some text \<and>
      slot_positions stem stop_words t text \<noteq> [])"
    by (simp add: raw_lookup [OF assms] split: option.splits)
  finally show ?thesis .
qed


lemma slot_positions_set:
  "p \<in> set (slot_positions stem stop_words t document) \<longleftrightarrow>
     (\<exists>n<length (py_split document). p = int n \<and>
        slot_term stem stop_words (py_split document ! n) = Some t)"
  by (auto simp: slot_positions_def in_set_enumerate_eq image_iff)

lemma fresh_positional_get:
  assumes "distinct (map fst documents)"
  shows "dict_get (dict_get (snd (fresh_indexes stem stop_words documents)) t []) k [] =
     (case k of
        IntKey d \<Rightarrow>
          (case map_of documents d of
             None \<Rightarrow> []
           | Some text \<Rightarrow> slot_positions stem stop_words t text)
      | StrKey s \<Rightarrow> [])"
  by (simp add: dict_get_def [of "dict_get (snd (fresh_indexes stem stop_words documents)) t []"]
      fresh_positional_lookup [OF assms] split: doc_key.splits option.splits)

lemma fresh_positional_keys:
  "distinct (map fst (snd (fresh_indexes stem stop_words documents)))"
proof -
  have "keys_distinct (snd (raw_indexes stem stop_words documents))"
    using raw_inv_raw [of stem stop_words documents] by (simp add: raw_inv_def)
  then show ?thesis
    by (simp add: fresh_indexes_raw int_keys_def sort_positional_def Let_def keys_distinct_def
        case_prod_beta comp_def)
qed

lemma fresh_postings_keys:
  "distinct (map fst (dict_get (snd (fresh_indexes stem stop_words documents)) t []))"
proof -
  have "keys_distinct (snd (raw_indexes stem stop_words documents))"
    using raw_inv_raw [of stem stop_words documents] by (simp add: raw_inv_def)
  then have "distinct (map fst (sort_postings (dict_get (snd (raw_indexes stem stop_words documents)) t [])))"
    by (intro sort_postings_keys keys_distinct_get)
  then show ?thesis
    by (simp add: fresh_indexes_raw final_postings distinct_map case_prod_beta comp_def inj_on_def)
qed

lemma fresh_positional_entries:
  assumes "distinct (map fst documents)"
      and "(t, post) \<in> set (snd (fresh_indexes stem stop_words documents))"
      and "(k, ps) \<in> set post"
  shows "sorted_wrt (<) ps"
proof -
  from assms(2) have "map_of (snd (fresh_indexes stem stop_words documents)) t = Some post"
    using fresh_positional_keys by simp
  then have post: "dict_get (snd (fresh_indexes stem stop_words documents)) t [] = post"
    by (simp add: dict_get_def)
  with fresh_postings_keys [of stem stop_words documents t] assms(3)
  have "map_of post k = Some ps" by simp
  then show ?thesis
    using fresh_positional_lookup [OF assms(1), of stem stop_words t k] post
    by (auto simp: slot_positions_sorted split: doc_key.splits option.splits if_splits)
qed

lemma build_indexes_fresh:
  assumes "inverted_file files = None \<or> positional_file files = None"
      and "build_indexes stem stop_words files documents = Inr (I, P, files')"
  shows "I = fst (fresh_indexes stem stop_words documents)"
    and "P = snd (fresh_indexes stem stop_words documents)"
  using assms by (auto simp: build_indexes_def case_prod_beta split: option.splits)

lemma example_build:
  "build_indexes lowercase_stem {} no_files example_documents =
     Inr ([(''data'', [1, 2]), (''fun'', [1]), (''gold'', [1, 2])],
          [(''data'', [(IntKey 1, [0]), (IntKey 2, [1, 3])]),
           (''fun'', [(IntKey 1, [2])]),
           (''gold'', [(IntKey 1, [1]), (IntKey 2, [0])])],
          \<lparr>inverted_file = Some [''data:1 2'', ''fun:1'', ''gold:1 2''],
           positional_file =
             Some [''data: 1 [0] 2 [1,3]'', ''fun: 1 [2]'', ''gold: 1 [1] 2 [0]'']\<rparr>)"
  by code_simp

lemma example_distinct: "distinct (map fst example_documents)"
  by (simp add: example_documents_def)

lemma example_fresh: "inverted_file no_files = None \<or> positional_file no_files = None"
  by (simp add: no_files_def)

text \<open>
  Claim C6. In the indexes built from a collection (no index files to load, one text per
  document id), a document is listed for a term in the inverted index exactly when the
  postings of the term in the positional index hold the document with a non-empty position
  list; every posting list of the inverted index and every position list of the positional
  index is strictly ascending.
\<close>

theorem built_indexes_consistent_sorted:
  assumes "distinct (map fst documents)"
      and "inverted_file files = None \<or> positional_file files = None"
      and "build_indexes stem stop_words files documents = Inr (I, P, files')"
  shows "(\<forall>t d. d \<in> set (dict_get I t []) \<longleftrightarrow>
            (\<exists>ps. map_of (dict_get P t []) (IntKey d) = Some ps \<and> ps \<noteq> [])) \<and>
         (\<forall>t ids. (t, ids) \<in> set I \<longrightarrow> sorted_wrt (<) ids) \<and>
         (\<forall>t post k ps. (t, post) \<in> set P \<longrightarrow> (k, ps) \<in> set post \<longrightarrow> sorted_wrt (<) ps)"
proof -
  note IP = build_indexes_fresh [OF assms(2,3)]
  have "d \<in> set (dict_get I t []) \<longleftrightarrow>
      (\<exists>ps. map_of (dict_get P t []) (IntKey d) = Some ps \<and> ps \<noteq> [])" for t d
    unfolding IP
    by (auto simp: fresh_inverted_members [OF assms(1)] fresh_positional_lookup [OF assms(1)]
        split: option.splits)
  moreover have "sorted_wrt (<) ids" if "(t, ids) \<in> set I" for t ids
    using that unfolding IP by (auto simp: fresh_indexes_raw dest: sort_inverted_entries)
  moreover have "sorted_wrt (<) ps" if "(t, post) \<in> set P" "(k, ps) \<in> set post" for t post k ps
    using that unfolding IP by (rule fresh_positional_entries [OF assms(1)])
  ultimately show ?thesis by blast
qed

theorem built_indexes_consistent_sorted_witness:
  "distinct (map fst example_documents) \<and>
   inverted_file no_files = None \<and>
   build_indexes lowercase_stem {} no_files example_documents =
     Inr ([(''data'', [1, 2::int]), (''fun'', [1]), (''gold'', [1, 2])],
          [(''data'', [(IntKey 1, [0::int]), (IntKey 2, [1, 3])]),
           (''fun'', [(IntKey 1, [2])]),
           (''gold'', [(IntKey 1, [1]), (IntKey 2, [0])])],
          \<lparr>inverted_file = Some [''data:1 2'', ''fun:1'', ''gold:1 2''],
           positional_file =
             Some [''data: 1 [0] 2 [1,3]'', ''fun: 1 [2]'', ''gold: 1 [1] 2 [0]'']\<rparr>) \<and>
   ((2::int) \<in> set (dict_get [(''data'', [1, 2::int]), (''fun'', [1]), (''gold'', [1, 2])] ''fun'' [])) =
     (\<exists>ps. map_of (dict_get [(''data'', [(IntKey 1, [0::int]), (IntKey 2, [1, 3])]),
           (''fun'', [(IntKey 1, [2])]),
           (''gold'', [(IntKey 1, [1]), (IntKey 2, [0])])] ''fun'' []) (IntKey 2) = Some ps \<and> ps \<noteq> []) \<and>
   sorted_wrt (<) [1, 3 :: int]"
proof -
  note r = built_indexes_consistent_sorted [OF example_distinct example_fresh example_build]
  have 1: "((2::int) \<in> set (dict_get [(''data'', [1, 2::int]), (''fun'', [1]), (''gold'', [1, 2])] ''fun'' [])) =
     (\<exists>ps. map_of (dict_get [(''data'', [(IntKey 1, [0::int]), (IntKey 2, [1, 3])]),
           (''fun'', [(IntKey 1, [2])]),
           (''gold'', [(IntKey 1, [1]), (IntKey 2, [0::int])])] ''fun'' []) (IntKey 2) = Some ps \<and> ps \<noteq> [])"
    using r by blast
  have 2: "sorted_wrt (<) [1, 3 :: int]"
    using r by (elim conjE allE [of _ "''data''"] allE [of _ "IntKey 2"] allE [of _ "[1, 3]"]
        allE [of _ "[(IntKey 1, [0::int]), (IntKey 2, [1, 3])]"]) simp
  from 1 2 example_distinct example_build show ?thesis
    by (simp add: no_files_def)
qed

text \<open>
  Claim C8. In the positional index built from a collection, the position list of a term in
  a document is the list of the numbers, counted from 0 over all slots of the whitespace
  split of the raw text, of the slots whose first normalised token is the term. A slot that
  is filtered out keeps its number: the positions are not renumbered over the surviving
  tokens.
\<close>

theorem positions_are_raw_slots:
  assumes "distinct (map fst documents)"
      and "inverted_file files = None \<or> positional_file files = None"
      and "build_indexes stem stop_words files documents = Inr (I, P, files')"
      and "(d, document) \<in> set documents"
  shows "dict_get (dict_get P term []) (IntKey d) [] = slot_positions stem stop_words term document \<and>
         (\<forall>p. p \<in> set (dict_get (dict_get P term []) (IntKey d) []) \<longleftrightarrow>
            (\<exists>n<length (py_split document). p = int n \<and>
               slot_term stem stop_words (py_split document ! n) = Some term))"
proof -
  note IP = build_indexes_fresh [OF assms(2,3)]
  from assms(1,4) have "map_of documents d = Some document" by simp
  then have "dict_get (dict_get P term []) (IntKey d) [] = slot_positions stem stop_words term document"
    unfolding IP by (simp add: fresh_positional_get [OF assms(1)])
  then show ?thesis
    by (simp add: slot_positions_set)
qed

theorem positions_are_raw_slots_witness:
  "distinct (map fst example_documents) \<and>
   inverted_file no_files = None \<and>
   build_indexes lowercase_stem {} no_files example_documents =
     Inr ([(''data'', [1, 2::int]), (''fun'', [1]), (''gold'', [1, 2])],
          [(''data'', [(IntKey 1, [0::int]), (IntKey 2, [1, 3])]),
           (''fun'', [(IntKey 1, [2])]),
           (''gold'', [(IntKey 1, [1]), (IntKey 2, [0])])],
          \<lparr>inverted_file = Some [''data:1 2'', ''fun:1'', ''gold:1 2''],
           positional_file =
             Some [''data: 1 [0] 2 [1,3]'', ''fun: 1 [2]'', ''gold: 1 [1] 2 [0]'']\<rparr>) \<and>
   (2, ''gold data 12 data'') \<in> set example_documents \<and>
   slot_positions lowercase_stem {} ''data'' ''gold data 12 data'' = [1, 3]"
proof -
  have m: "(2, ''gold data 12 data'') \<in> set example_documents"
    by (simp add: example_documents_def)
  note r = positions_are_raw_slots [OF example_distinct example_fresh example_build m,
      of "''data''"]
  have "dict_get (dict_get [(''data'', [(IntKey 1, [0::int]), (IntKey 2, [1, 3])]),
           (''fun'', [(IntKey 1, [2])]),
           (''gold'', [(IntKey 1, [1]), (IntKey 2, [0::int])])] ''data'' []) (IntKey 2) [] = [1, 3]"
    by (simp add: dict_get_def)
  with r have "slot_positions lowercase_stem {} ''data'' ''gold data 12 data'' = [1, 3]"
    by simp
  with m example_distinct example_build show ?thesis
    by (simp add: no_files_def)
qed

text \<open>
  Claim C10, as the code has it. In the positional index built from a collection, the
  position lists of two different terms in the same document have no position in common:
  a slot is recorded under its first normalised token only.
\<close>

theorem term_positions_disjoint:
  assumes "distinct (map fst documents)"
      and "inverted_file files = None \<or> positional_file files = None"
      and "build_indexes stem stop_words files documents = Inr (I, P, files')"
      and "term1 \<noteq> term2"
  shows "set (dict_get (dict_get P term1 []) k []) \<inter> set (dict_get (dict_get P term2 []) k []) = {}"
proof -
  note IP = build_indexes_fresh [OF assms(2,3)]
  have "set (slot_positions stem stop_words term1 doc) \<inter>
        set (slot_positions stem stop_words term2 doc) = {}" for doc
    using assms(4) by (auto simp: slot_positions_set)
  note disj = this
  show ?thesis
  proof (cases k)
    case (IntKey d)
    then show ?thesis
      using disj
      by (cases "map_of documents d") (simp_all add: IP fresh_positional_get [OF assms(1)])
  next
    case (StrKey s)
    then show ?thesis
      by (simp add: IP fresh_positional_get [OF assms(1)])
  qed
qed

theorem term_positions_disjoint_witness:
  "distinct (map fst example_documents) \<and>
   inverted_file no_files = None \<and>
   build_indexes lowercase_stem {} no_files example_documents =
     Inr ([(''data'', [1, 2::int]), (''fun'', [1]), (''gold'', [1, 2])],
          [(''data'', [(IntKey 1, [0::int]), (IntKey 2, [1, 3])]),
           (''fun'', [(IntKey 1, [2])]),
           (''gold'', [(IntKey 1, [1]), (IntKey 2, [0])])],
          \<lparr>inverted_file = Some [''data:1 2'', ''fun:1'', ''gold:1 2''],
           positional_file =
             Some [''data: 1 [0] 2 [1,3]'', ''fun: 1 [2]'', ''gold: 1 [1] 2 [0]'']\<rparr>) \<and>
   ''data'' \<noteq> ''gold'' \<and>
   set (dict_get (dict_get [(''data'', [(IntKey 1, [0::int]), (IntKey 2, [1, 3])]),
           (''fun'', [(IntKey 1, [2])]),
           (''gold'', [(IntKey 1, [1]), (IntKey 2, [0])])] ''data'' []) (IntKey 2) []) \<inter>
   set (dict_get (dict_get [(''data'', [(IntKey 1, [0::int]), (IntKey 2, [1, 3])]),
           (''fun'', [(IntKey 1, [2])]),
           (''gold'', [(IntKey 1, [1]), (IntKey 2, [0])])] ''gold'' []) (IntKey 2) []) = {}"
proof -
  have n: "''data'' \<noteq> ''gold''" by simp
  note r = term_positions_disjoint [OF example_distinct example_fresh example_build n,
      of "IntKey 2"]
  with n example_distinct example_build show ?thesis
    by (simp only: no_files_def index_files.simps simp_thms)
qed

text \<open>
  The reason the specification gives for claim C10 fails: one slot can normalise to more
  than one token. The slot \<^verbatim>\<open>a@b.cd!hello\<close> yields the address and the word behind
  it; the builder records the slot under the address only.
\<close>

theorem slot_with_two_tokens:
  "py_split ''a@b.cd!hello'' = [''a@b.cd!hello''] \<and>
   preprocess lowercase_stem {} ''a@b.cd!hello'' = [''a@b.cd'', ''hello''] \<and>
   fresh_indexes lowercase_stem {} [(1, ''a@b.cd!hello'')] =
     ([(''a@b.cd'', [1])], [(''a@b.cd'', [(IntKey 1, [0])])])"
  by code_simp

end
